theory Spec2Isabelle
  imports Main
begin

section \<open>Strings and lexical paths\<close>

text \<open>
  Go strings are byte sequences; they are modelled as \<^typ>\<open>string\<close>.
  \<open>hasPrefix\<close> and \<open>hasSuffix\<close> are \<open>strings.HasPrefix\<close> and \<open>strings.HasSuffix\<close>.
\<close>

definition hasPrefix :: "string \<Rightarrow> string \<Rightarrow> bool" where
  "hasPrefix s p = (take (length p) s = p)"

definition hasSuffix :: "string \<Rightarrow> string \<Rightarrow> bool" where
  "hasSuffix s x = (length x \<le> length s \<and> drop (length s - length x) s = x)"

text \<open>
  The functions of Go's \<open>path/filepath\<close> that the dock code calls, for a Unix
  separator and no volume names. \<open>Clean\<close> works on the elements between
  separators: empty and \<open>.\<close> elements are dropped, a \<open>..\<close> element removes the
  element before it, is dropped at the root, and is kept at the front of a
  relative path. The stack of kept elements is held with its top first.
\<close>

fun splitSep :: "string \<Rightarrow> string list" where
  "splitSep [] = [[]]"
| "splitSep (c # cs) =
     (if c = CHR ''/'' then [] # splitSep cs
      else (case splitSep cs of
              [] \<Rightarrow> [[c]]
            | x # xs \<Rightarrow> (c # x) # xs))"

fun joinSep :: "string list \<Rightarrow> string" where
  "joinSep [] = []"
| "joinSep [x] = x"
| "joinSep (x # y # ys) = x @ CHR ''/'' # joinSep (y # ys)"

definition cleanStep :: "bool \<Rightarrow> string list \<Rightarrow> string \<Rightarrow> string list" where
  "cleanStep rooted st c =
     (if c = [] \<or> c = ''.'' then st
      else if c = ''..'' then
        (case st of
           [] \<Rightarrow> (if rooted then [] else [''..''])
         | t # ts \<Rightarrow> (if t = ''..'' then ''..'' # st else ts))
      else c # st)"

definition render :: "bool \<Rightarrow> string list \<Rightarrow> string" where
  "render rooted out =
     (if rooted then CHR ''/'' # joinSep out
      else if out = [] then ''.''
      else joinSep out)"

definition Clean :: "string \<Rightarrow> string" where
  "Clean path =
     (if path = [] then ''.''
      else
        (let rooted = (hd path = CHR ''/'')
         in render rooted (rev (foldl (cleanStep rooted) [] (splitSep path)))))"

definition Dir :: "string \<Rightarrow> string" where
  "Dir path = Clean (rev (dropWhile (\<lambda>c. c \<noteq> CHR ''/'') (rev path)))"

definition Base :: "string \<Rightarrow> string" where
  "Base path =
     (if path = [] then ''.''
      else
        (let p = rev (dropWhile (\<lambda>c. c = CHR ''/'') (rev path));
             b = rev (takeWhile (\<lambda>c. c \<noteq> CHR ''/'') (rev p))
         in if b = [] then ''/'' else b))"

definition Join :: "string \<Rightarrow> string \<Rightarrow> string" where
  "Join a b =
     (if a \<noteq> [] then Clean (a @ CHR ''/'' # b)
      else if b \<noteq> [] then Clean b
      else [])"

text \<open>
  A plain name: one path element that names a file or a directory, that is a
  non-empty string without separator other than \<open>.\<close> and \<open>..\<close>.
\<close>

definition plainName :: "string \<Rightarrow> bool" where
  "plainName x = (CHR ''/'' \<notin> set x \<and> x \<noteq> [] \<and> x \<noteq> ''.'' \<and> x \<noteq> ''..'')"

section \<open>Data model\<close>

text \<open>
  \<open>AppInfo\<close> is the launcher metadata of a descriptor file: the methods
  \<open>GetFileName\<close> and \<open>IsInstalled\<close> and the field \<open>innerId\<close> that the dock code
  reads. \<open>WindowInfo\<close> is the window behind \<open>entry.current\<close>, with the three
  getters the synthesis uses. A nil pointer is \<open>None\<close>.
\<close>

record AppInfo =
  GetFileName :: string
  IsInstalled :: bool
  ai_innerId :: string

record WindowInfo =
  getInnerId :: string
  getDisplayName :: string
  getIcon :: string

record AppEntry =
  entry_Id :: string
  IsDocked :: bool
  appInfo :: "AppInfo option"
  innerId :: string
  current :: "WindowInfo option"
  windows :: "WindowInfo list"

text \<open>
  Modelled from the spec: \<open>hasWindow\<close> is a method of \<open>AppEntry\<close> declared elsewhere
  in the package; it tells whether the entry still has at least one associated
  window.
\<close>

definition hasWindow :: "AppEntry \<Rightarrow> bool" where
  "hasWindow entry = (windows entry \<noteq> [])"

datatype error =
    MkdirError
  | WriteError
  | RemoveError
  | CopyError
  | DataUriError
  | EntryCurrentIsNil

text \<open>The warnings the code hands to the logger; debug messages are not kept.\<close>

datatype logmsg =
    WarnDockEntryIsDocked string
  | WarnCreateScratchFailed error
  | WarnRemoveScratchFailed string error
  | WarnDataUri error
  | WarnUndockNotDocked string
  | WarnUndockAppInfoNil

text \<open>
  The world outside the process: the files by path with their contents, the
  paths on which the operating system refuses a directory creation, a write or a
  removal, and the warning log.
\<close>

record world =
  files :: "string \<rightharpoonup> string"
  mkdirFails :: "string set"
  writeFails :: "string set"
  removeFails :: "string set"
  warnings :: "logmsg list"

datatype 'a outcome = Returned 'a | Panicked

definition logWarning :: "world \<Rightarrow> logmsg \<Rightarrow> world" where
  "logWarning w msg = w\<lparr>warnings := warnings w @ [msg]\<rparr>"

definition os_MkdirAll :: "world \<Rightarrow> string \<Rightarrow> error option" where
  "os_MkdirAll w dir = (if dir \<in> mkdirFails w then Some MkdirError else None)"

definition ioutil_WriteFile :: "world \<Rightarrow> string \<Rightarrow> string \<Rightarrow> error option \<times> world" where
  "ioutil_WriteFile w filename content =
     (if filename \<in> writeFails w then (Some WriteError, w)
      else (None, w\<lparr>files := (files w)(filename \<mapsto> content)\<rparr>))"

definition os_Remove :: "world \<Rightarrow> string \<Rightarrow> error option \<times> world" where
  "os_Remove w file =
     (if file \<in> removeFails w then (Some RemoveError, w)
      else (None, w\<lparr>files := (files w)(file := None)\<rparr>))"

definition IsFileExist :: "world \<Rightarrow> string \<Rightarrow> bool" where
  "IsFileExist w file = (files w file \<noteq> None)"

text \<open>
  Modelled from the spec: \<open>copyFileContents\<close> is the generic file-copy utility,
  defined elsewhere in the package; it fails when the source file cannot be read
  or the target cannot be written, and otherwise the target holds the source's
  content.
\<close>

definition copyFileContents :: "world \<Rightarrow> string \<Rightarrow> string \<Rightarrow> error option \<times> world" where
  "copyFileContents w src dst =
     (case files w src of
        None \<Rightarrow> (Some CopyError, w)
      | Some content \<Rightarrow>
          (if dst \<in> writeFails w then (Some CopyError, w)
           else (None, w\<lparr>files := (files w)(dst \<mapsto> content)\<rparr>)))"

text \<open>
  Modelled from the spec: the constant \<open>desktopExt\<close> is defined elsewhere in the
  package; the extension of a launcher descriptor is \<open>.desktop\<close>.
\<close>

definition desktopExt :: string where
  "desktopExt = ''.desktop''"

text \<open>
  Modelled from the spec: \<open>addDesktopExt\<close> is defined elsewhere in the package; it
  gives the descriptor file name for an identity, the name itself when it already
  carries the descriptor extension and the name with the extension added
  otherwise.
\<close>

definition addDesktopExt :: "string \<Rightarrow> string" where
  "addDesktopExt str = (if hasSuffix str desktopExt then str else str @ desktopExt)"

text \<open>
  Modelled from the spec: \<open>trimDesktopExt\<close> is defined elsewhere in the package.
  Given a path that is part of a scratch set, the descriptor (\<open>.desktop\<close>), the
  script (\<open>.sh\<close>) or the image (\<open>.png\<close>), it strips the extension to find the base
  that the files of the set share; a name with none of the recognized extensions
  is left as it is.
\<close>

definition trimDesktopExt :: "string \<Rightarrow> string" where
  "trimDesktopExt str =
     (if hasSuffix str desktopExt then take (length str - length desktopExt) str
      else if hasSuffix str ''.sh'' then take (length str - length ''.sh'') str
      else if hasSuffix str ''.png'' then take (length str - length ''.png'') str
      else str)"

text \<open>
  What the dock code takes from the rest of the program, as parameters: the
  constants \<open>scratchDir\<close> and \<open>windowHashPrefix\<close>, the path encoding
  \<open>zipDesktopPath\<close>, the launcher resolver behind \<open>NewAppInfoFromFile\<close> (the
  installed flag and the identity of a descriptor file, or nothing when the file
  gives no metadata), \<open>Manager.identifyWindow\<close>, \<open>AppEntry.getExec\<close>, and the
  decoder of inline images behind \<open>dataUriToFile\<close>.
\<close>

record deps =
  scratchDir :: string
  windowHashPrefix :: string
  zipDesktopPath :: "string \<Rightarrow> string"
  resolveLauncher :: "(string \<rightharpoonup> string) \<Rightarrow> string \<Rightarrow> (bool \<times> string) option"
  identifyWindow :: "(string \<rightharpoonup> string) \<Rightarrow> WindowInfo \<Rightarrow> string \<times> AppInfo option"
  getExec :: "AppEntry \<Rightarrow> bool \<Rightarrow> string"
  decodeDataUri :: "string \<Rightarrow> string option"

text \<open>
  Modelled from the spec: \<open>NewAppInfoFromFile\<close> is defined elsewhere in the
  package. Given a file path, the launcher resolver returns the parsed metadata of
  that file with an installed flag and a derived identity; a failure is no
  metadata.
\<close>

definition NewAppInfoFromFile :: "deps \<Rightarrow> world \<Rightarrow> string \<Rightarrow> AppInfo option" where
  "NewAppInfoFromFile d w file =
     (case resolveLauncher d (files w) file of
        None \<Rightarrow> None
      | Some (inst, iid) \<Rightarrow>
          Some \<lparr>GetFileName = file, IsInstalled = inst, ai_innerId = iid\<rparr>)"

text \<open>
  Modelled from the spec: \<open>dataUriToFile\<close> is defined elsewhere in the package; it
  materializes an inline-encoded image to the given scratch image file and
  returns that path, or fails.
\<close>

definition dataUriToFile :: "deps \<Rightarrow> world \<Rightarrow> string \<Rightarrow> string \<Rightarrow> (error + string) \<times> world" where
  "dataUriToFile d w uri path =
     (case decodeDataUri d uri of
        None \<Rightarrow> (Inl DataUriError, w)
      | Some img \<Rightarrow>
          (case ioutil_WriteFile w path img of
             (Some err, w') \<Rightarrow> (Inl err, w')
           | (None, w') \<Rightarrow> (Inr path, w')))"

section \<open>Scratch launcher files\<close>

text \<open>
  \<open>dockedItemTemplate\<close> with its three \<open>%s\<close> verbs filled by \<open>fmt.Sprintf\<close>, in
  the order name, exec, icon.
\<close>

record dockedItemInfo =
  Name :: string
  Icon :: string
  Exec :: string

definition dockedItemTemplate :: "string \<Rightarrow> string \<Rightarrow> string \<Rightarrow> string" where
  "dockedItemTemplate name exec icon =
     ''[Desktop Entry]\<newline>Name='' @ name @
     ''\<newline>Exec='' @ exec @
     ''\<newline>Icon='' @ icon @
     ''\<newline>Type=Application\<newline>Terminal=false\<newline>StartupNotify=false\<newline>''"

definition createScratchDesktopFile ::
  "deps \<Rightarrow> world \<Rightarrow> string \<Rightarrow> string \<Rightarrow> string \<Rightarrow> string \<Rightarrow> (error + string) \<times> world" where
  "createScratchDesktopFile d w ident title icon cmd =
     (let filename = Join (scratchDir d) (addDesktopExt ident);
          dockedItem = \<lparr>Name = title, Icon = icon, Exec = cmd\<rparr>;
          content = dockedItemTemplate (Name dockedItem) (Exec dockedItem) (Icon dockedItem)
      in case ioutil_WriteFile w filename content of
           (Some err, w') \<Rightarrow> (Inl err, w')
         | (None, w') \<Rightarrow> (Inr filename, w'))"

definition extList :: "string list" where
  "extList = [''.desktop'', ''.sh'', ''.png'']"

fun removeLoop :: "world \<Rightarrow> string \<Rightarrow> string list \<Rightarrow> world" where
  "removeLoop w fileNoExt [] = w"
| "removeLoop w fileNoExt (ext # exts) =
     (let file = fileNoExt @ ext;
          w' = (if IsFileExist w file then
                  (case os_Remove w file of
                     (Some err, w1) \<Rightarrow> logWarning w1 (WarnRemoveScratchFailed file err)
                   | (None, w1) \<Rightarrow> w1)
                else w)
      in removeLoop w' fileNoExt exts)"

definition removeScratchFiles :: "world \<Rightarrow> string \<Rightarrow> world" where
  "removeScratchFiles w desktopFile = removeLoop w (trimDesktopExt desktopFile) extList"

definition createScratchDesktopFileWithAppEntry ::
  "deps \<Rightarrow> world \<Rightarrow> AppEntry \<Rightarrow> (error + string) \<times> world" where
  "createScratchDesktopFileWithAppEntry d w entry =
     (case os_MkdirAll w (scratchDir d) of
        Some err \<Rightarrow> (Inl err, w)
      | None \<Rightarrow>
          (case appInfo entry of
             Some ai \<Rightarrow>
               (let desktopFile = GetFileName ai;
                    newDesktopFile = Join (scratchDir d) (ai_innerId ai @ ''.desktop'')
                in case copyFileContents w desktopFile newDesktopFile of
                     (Some err, w') \<Rightarrow> (Inl err, w')
                   | (None, w') \<Rightarrow> (Inr newDesktopFile, w'))
           | None \<Rightarrow>
               (case current entry of
                  None \<Rightarrow> (Inl EntryCurrentIsNil, w)
                | Some cur \<Rightarrow>
                    (let appId = getInnerId cur;
                         title = getDisplayName cur;
                         icon0 = getIcon cur;
                         (icon1, w1) =
                           (if hasPrefix icon0 ''data:image'' then
                              (case dataUriToFile d w icon0 (Join (scratchDir d) (appId @ ''.png'')) of
                                 (Inl err, w') \<Rightarrow> ([], logWarning w' (WarnDataUri err))
                               | (Inr path, w') \<Rightarrow> (path, w'))
                            else (icon0, w));
                         icon = (if icon1 = [] then ''application-default-icon'' else icon1);
                         scriptContent = getExec d entry False;
                         scriptFile = Join (scratchDir d) (appId @ ''.sh'')
                     in case ioutil_WriteFile w1 scriptFile scriptContent of
                          (Some err, w2) \<Rightarrow> (Inl err, w2)
                        | (None, w2) \<Rightarrow>
                            createScratchDesktopFile d w2 appId title icon (scriptFile @ '' %U'')))))"

section \<open>The manager and the docked list\<close>

text \<open>
  \<open>*AppEntry\<close> pointers are addresses into \<open>heap\<close>; \<open>Entries\<close> is the tracked
  collection, in iteration order; \<open>DockedApps\<close> is the persisted list.
\<close>

record Manager =
  heap :: "nat \<Rightarrow> AppEntry"
  Entries :: "nat list"
  DockedApps :: "string list"

text \<open>
  Modelled from the spec: \<open>AppEntries.FilterDocked\<close> is defined elsewhere in the
  package; it keeps the tracked entries whose \<open>IsDocked\<close> is true.
\<close>

definition FilterDocked :: "Manager \<Rightarrow> AppEntry list" where
  "FilterDocked m = filter IsDocked (map (heap m) (Entries m))"

text \<open>
  Modelled from the spec: \<open>Manager.removeAppEntry\<close> is defined elsewhere in the
  package; it destroys the entry, removing it from the tracked set.
\<close>

definition removeAppEntry :: "Manager \<Rightarrow> nat \<Rightarrow> Manager" where
  "removeAppEntry m a = m\<lparr>Entries := filter (\<lambda>b. b \<noteq> a) (Entries m)\<rparr>"

text \<open>
  The loop of \<open>saveDockedApps\<close>. \<open>entry.appInfo.GetFileName()\<close> on a nil
  \<open>appInfo\<close> is a nil dereference, which panics.
\<close>

fun saveLoop :: "deps \<Rightarrow> AppEntry list \<Rightarrow> string list \<Rightarrow> string list outcome" where
  "saveLoop d [] list = Returned list"
| "saveLoop d (entry # rest) list =
     (case appInfo entry of
        None \<Rightarrow> Panicked
      | Some ai \<Rightarrow> saveLoop d rest (list @ [zipDesktopPath d (GetFileName ai)]))"

definition saveDockedApps :: "deps \<Rightarrow> Manager \<Rightarrow> unit outcome \<times> Manager" where
  "saveDockedApps d m =
     (case saveLoop d (FilterDocked m) [] of
        Panicked \<Rightarrow> (Panicked, m)
      | Returned list \<Rightarrow> (Returned (), m\<lparr>DockedApps := list\<rparr>))"

section \<open>Docking and undocking\<close>

definition isFileInDir :: "string \<Rightarrow> string \<Rightarrow> bool" where
  "isFileInDir file dir = (Dir file = dir)"

definition needScratchDesktop :: "deps \<Rightarrow> AppInfo option \<Rightarrow> bool" where
  "needScratchDesktop d ai =
     (case ai of
        None \<Rightarrow> True
      | Some info \<Rightarrow>
          (if IsInstalled info then False
           else if isFileInDir (GetFileName info) (scratchDir d) then False
           else True))"

text \<open>
  \<open>dockEntry\<close> returns its pair of results, the entry as the call leaves it, and
  the world. \<open>updateIcon\<close> and \<open>updateMenu\<close> refresh display properties that are
  not part of the model. After \<open>setAppInfo(appInfo)\<close> with a nil \<open>appInfo\<close> the
  read of \<open>entry.appInfo.innerId\<close> panics.
\<close>

definition dockEntry ::
  "deps \<Rightarrow> world \<Rightarrow> AppEntry \<Rightarrow> (bool \<times> error option) outcome \<times> AppEntry \<times> world" where
  "dockEntry d w entry =
     (if IsDocked entry then
        (Returned (False, None), entry, logWarning w (WarnDockEntryIsDocked (entry_Id entry)))
      else if needScratchDesktop d (appInfo entry) then
        (case createScratchDesktopFileWithAppEntry d w entry of
           (Inl err, w') \<Rightarrow>
             (Returned (False, Some err), entry, logWarning w' (WarnCreateScratchFailed err))
         | (Inr file, w') \<Rightarrow>
             (case NewAppInfoFromFile d w' file of
                None \<Rightarrow> (Panicked, entry\<lparr>appInfo := None\<rparr>, w')
              | Some ai \<Rightarrow>
                  (Returned (True, None),
                   entry\<lparr>appInfo := Some ai, innerId := ai_innerId ai, IsDocked := True\<rparr>,
                   w')))
      else (Returned (True, None), entry\<lparr>IsDocked := True\<rparr>, w))"

text \<open>
  \<open>undockEntry\<close> on the entry at address \<open>a\<close>. \<open>undockFields\<close> is the branch
  taken when a window remains: the field updates made under the write lock.
  \<open>updateIcon\<close>, \<open>updateName\<close> and \<open>updateMenu\<close> refresh display properties that
  are not part of the model.
\<close>

definition undockFields :: "deps \<Rightarrow> world \<Rightarrow> AppEntry \<Rightarrow> string \<Rightarrow> bool \<Rightarrow> AppEntry" where
  "undockFields d w entry desktop isDesktopInScratchDir =
     (let entry1 =
            (if isDesktopInScratchDir then
               (case current entry of
                  None \<Rightarrow> entry
                | Some cur \<Rightarrow>
                    (if hasPrefix (Base desktop) (windowHashPrefix d) then
                       entry\<lparr>innerId := getInnerId cur, appInfo := None\<rparr>
                     else
                       (case identifyWindow d (files w) cur of
                          (newId, newAppInfo) \<Rightarrow>
                            entry\<lparr>innerId := newId, appInfo := newAppInfo\<rparr>)))
             else entry)
      in entry1\<lparr>IsDocked := False\<rparr>)"

definition undockEntry ::
  "deps \<Rightarrow> world \<Rightarrow> Manager \<Rightarrow> nat \<Rightarrow> unit outcome \<times> Manager \<times> world" where
  "undockEntry d w m a =
     (let entry = heap m a in
      if \<not> IsDocked entry then
        (Returned (), m, logWarning w (WarnUndockNotDocked (entry_Id entry)))
      else
        (case appInfo entry of
           None \<Rightarrow> (Returned (), m, logWarning w WarnUndockAppInfoNil)
         | Some ai \<Rightarrow>
             (let desktop = GetFileName ai;
                  isDesktopInScratchDir = isFileInDir desktop (scratchDir d);
                  w' = (if isDesktopInScratchDir then removeScratchFiles w (GetFileName ai) else w);
                  hasWin = hasWindow entry;
                  m' = (if \<not> hasWin then removeAppEntry m a
                        else m\<lparr>heap := (heap m)
                               (a := undockFields d w' entry desktop isDesktopInScratchDir)\<rparr>)
              in case saveDockedApps d m' of (r, m'') \<Rightarrow> (r, m'', w'))))"

text \<open>Sequences of dock and undock calls; a panic ends the run.\<close>

datatype op = Dock nat | Undock nat

definition step :: "deps \<Rightarrow> Manager \<times> world \<Rightarrow> op \<Rightarrow> bool \<times> Manager \<times> world" where
  "step d s operation =
     (case s of (m, w) \<Rightarrow>
        (case operation of
           Dock a \<Rightarrow>
             (case dockEntry d w (heap m a) of
                (r, entry', w') \<Rightarrow> (r = Panicked, m\<lparr>heap := (heap m)(a := entry')\<rparr>, w'))
         | Undock a \<Rightarrow>
             (case undockEntry d w m a of
                (r, m', w') \<Rightarrow> (r = Panicked, m', w'))))"

fun run :: "deps \<Rightarrow> op list \<Rightarrow> Manager \<times> world \<Rightarrow> bool \<times> Manager \<times> world" where
  "run d [] s = (False, s)"
| "run d (operation # rest) s =
     (case step d s operation of
        (True, s') \<Rightarrow> (True, s')
      | (False, s') \<Rightarrow> run d rest s')"

text \<open>The invariant of the data model: a docked entry has launcher metadata.\<close>

definition dockedHasAppInfo :: "Manager \<Rightarrow> bool" where
  "dockedHasAppInfo m = (\<forall>a. IsDocked (heap m a) \<longrightarrow> appInfo (heap m a) \<noteq> None)"

section \<open>A concrete configuration\<close>

text \<open>
  One instance of the parameters and a few entries, on which the theorems below
  are run: the scratch directory is \<open>/scratch\<close>, the window-hash prefix \<open>w:\<close>.
\<close>

definition deps0 :: deps where
  "deps0 =
     \<lparr>scratchDir = ''/scratch'',
      windowHashPrefix = ''w:'',
      zipDesktopPath = (\<lambda>p. ''enc:'' @ p),
      resolveLauncher =
        (\<lambda>fs file. case fs file of None \<Rightarrow> None
                                | Some content \<Rightarrow> Some (False, trimDesktopExt (Base file))),
      identifyWindow = (\<lambda>fs win. (''d:'' @ getDisplayName win, None)),
      getExec = (\<lambda>entry oneLine. ''foo-bin''),
      decodeDataUri = (\<lambda>uri. None)\<rparr>"

definition world0 :: world where
  "world0 =
     \<lparr>files = Map.empty, mkdirFails = {}, writeFails = {}, removeFails = {}, warnings = []\<rparr>"

definition winFoo :: WindowInfo where
  "winFoo = \<lparr>getInnerId = ''w:foo'', getDisplayName = ''Foo'', getIcon = []\<rparr>"

definition entryFoo :: AppEntry where
  "entryFoo =
     \<lparr>entry_Id = ''e1'', IsDocked = False, appInfo = None, innerId = ''w:foo'',
      current = Some winFoo, windows = [winFoo]\<rparr>"

definition entryBare :: AppEntry where
  "entryBare =
     \<lparr>entry_Id = ''e0'', IsDocked = False, appInfo = None, innerId = [],
      current = None, windows = []\<rparr>"

definition infoAt :: "string \<Rightarrow> AppInfo" where
  "infoAt file = \<lparr>GetFileName = file, IsInstalled = False, ai_innerId = trimDesktopExt (Base file)\<rparr>"

definition dockedAt :: "string \<Rightarrow> WindowInfo option \<Rightarrow> WindowInfo list \<Rightarrow> AppEntry" where
  "dockedAt file cur wins =
     \<lparr>entry_Id = ''e2'', IsDocked = True, appInfo = Some (infoAt file),
      innerId = trimDesktopExt (Base file), current = cur, windows = wins\<rparr>"

definition scratchSet :: "string \<rightharpoonup> string" where
  "scratchSet =
     [''/scratch/app1.desktop'' \<mapsto> ''d'', ''/scratch/app1.sh'' \<mapsto> ''s'',
      ''/scratch/app1.png'' \<mapsto> ''p'']"

definition manager0 :: "AppEntry \<Rightarrow> Manager" where
  "manager0 entry = \<lparr>heap = (\<lambda>a. if a = 0 then entry else entryBare), Entries = [0], DockedApps = []\<rparr>"

definition managerAB :: Manager where
  "managerAB =
     \<lparr>heap = (\<lambda>a. if a = 0 then dockedAt ''/scratch/a.desktop'' None []
                   else (dockedAt ''/scratch/b.desktop'' None [])\<lparr>IsDocked := False\<rparr>),
      Entries = [0, 1], DockedApps = [''stale'']\<rparr>"

definition worldApp1 :: "string set \<Rightarrow> world" where
  "worldApp1 stuck = world0\<lparr>files := scratchSet, removeFails := stuck\<rparr>"

definition entryW :: AppEntry where
  "entryW = dockedAt ''/scratch/w:foo.desktop'' (Some winFoo) [winFoo]"

definition entryD :: AppEntry where
  "entryD = dockedAt ''/scratch/d:abc.desktop'' (Some winFoo) [winFoo]"

definition entryNoCurrent :: AppEntry where
  "entryNoCurrent = dockedAt ''/scratch/w:foo.desktop'' None [winFoo]"


definition infoInstalled :: AppInfo where
  "infoInstalled =
     \<lparr>GetFileName = ''/usr/share/applications/x.desktop'', IsInstalled = True, ai_innerId = ''x''\<rparr>"

section \<open>Lexical paths: joining a name to a clean directory\<close>

lemma splitSep_nonempty: "splitSep s \<noteq> []"
  by (induction s) (auto split: list.splits)

lemma splitSep_Cons:
  "splitSep (c # cs) =
     (if c = CHR ''/'' then [] # splitSep cs
      else (c # hd (splitSep cs)) # tl (splitSep cs))"
  using splitSep_nonempty[of cs] by (cases "splitSep cs") auto

lemma splitSep_append: "splitSep (a @ CHR ''/'' # b) = splitSep a @ splitSep b"
proof (induction a)
  case Nil
  then show ?case by simp
next
  case (Cons c a)
  then show ?case
    using splitSep_nonempty[of a]
    by (simp add: splitSep_Cons del: splitSep.simps(2))
qed

lemma splitSep_noslash: "CHR ''/'' \<notin> set x \<Longrightarrow> splitSep x = [x]"
  by (induction x) auto

lemma joinSep_snoc: "xs \<noteq> [] \<Longrightarrow> joinSep (xs @ [x]) = joinSep xs @ CHR ''/'' # x"
  by (induction xs rule: joinSep.induct) auto

lemma dirpart_snoc:
  "CHR ''/'' \<notin> set x \<Longrightarrow>
   rev (dropWhile (\<lambda>c. c \<noteq> CHR ''/'') (rev (q @ CHR ''/'' # x))) = q @ ''/''"
proof -
  assume "CHR ''/'' \<notin> set x"
  then have "dropWhile (\<lambda>c. c \<noteq> CHR ''/'') (rev x @ CHR ''/'' # rev q) = CHR ''/'' # rev q"
    by (subst dropWhile_append2) auto
  then show ?thesis by simp
qed

lemma dirpart_noslash:
  "CHR ''/'' \<notin> set x \<Longrightarrow> rev (dropWhile (\<lambda>c. c \<noteq> CHR ''/'') (rev x)) = []"
  by auto

lemma cleanStep_elem:
  "c \<noteq> [] \<Longrightarrow> c \<noteq> ''.'' \<Longrightarrow> c \<noteq> ''..'' \<Longrightarrow> cleanStep r st c = c # st"
  by (simp add: cleanStep_def)

lemma cleanStep_empty: "cleanStep r st [] = st"
  by (simp add: cleanStep_def)

lemma Clean_render:
  "p \<noteq> [] \<Longrightarrow> Clean p = render (hd p = CHR ''/'') (rev (foldl (cleanStep (hd p = CHR ''/'')) [] (splitSep p)))"
  by (simp add: Clean_def Let_def)

lemma Clean_slash_elem:
  assumes p: "p \<noteq> []" and x: "CHR ''/'' \<notin> set x" "x \<noteq> []" "x \<noteq> ''.''" "x \<noteq> ''..''"
  shows "Clean (p @ CHR ''/'' # x) =
         render (hd p = CHR ''/'') (rev (foldl (cleanStep (hd p = CHR ''/'')) [] (splitSep p)) @ [x])"
  using assms
  by (simp add: Clean_render splitSep_append splitSep_noslash cleanStep_elem)

lemma Clean_trailing_slash:
  "p \<noteq> [] \<Longrightarrow> Clean (p @ ''/'') = Clean p"
  by (simp add: Clean_render splitSep_append cleanStep_empty)

lemma Join_clean_cases:
  assumes sd: "Clean sd = sd"
    and x: "CHR ''/'' \<notin> set x" "x \<noteq> []" "x \<noteq> ''.''" "x \<noteq> ''..''"
  shows "(sd = ''/'' \<and> Join sd x = CHR ''/'' # x) \<or>
         (sd = ''.'' \<and> Join sd x = x) \<or>
         Join sd x = sd @ CHR ''/'' # x"
proof -
  have ne: "sd \<noteq> []" using sd by (auto simp: Clean_def)
  define r where "r = (hd sd = CHR ''/'')"
  define st where "st = rev (foldl (cleanStep r) [] (splitSep sd))"
  have sd_eq: "sd = render r st"
    using sd ne by (simp add: Clean_render r_def st_def)
  have J: "Join sd x = render r (st @ [x])"
    using ne x by (simp add: Join_def Clean_slash_elem r_def st_def)
  show ?thesis
  proof (cases "st = []")
    case True
    then show ?thesis using sd_eq J by (cases r) (simp_all add: render_def)
  next
    case False
    then have "Join sd x = sd @ CHR ''/'' # x"
      using sd_eq J by (simp add: render_def joinSep_snoc)
    then show ?thesis by simp
  qed
qed

lemma Dir_Join_clean:
  assumes sd: "Clean sd = sd"
    and x: "CHR ''/'' \<notin> set x" "x \<noteq> []" "x \<noteq> ''.''" "x \<noteq> ''..''"
  shows "Dir (Join sd x) = sd"
proof -
  have ne: "sd \<noteq> []" using sd by (auto simp: Clean_def)
  consider (root) "sd = ''/''" "Join sd x = CHR ''/'' # x"
    | (dot) "sd = ''.''" "Join sd x = x"
    | (sub) "Join sd x = sd @ CHR ''/'' # x"
    using Join_clean_cases[OF assms] by blast
  then show ?thesis
  proof cases
    case root
    then show ?thesis unfolding Dir_def using dirpart_snoc[OF x(1), of "[]"]
      by (simp add: Clean_def render_def cleanStep_def)
  next
    case dot
    then show ?thesis unfolding Dir_def using dirpart_noslash[OF x(1)]
      by (simp add: Clean_def)
  next
    case sub
    then have "Dir (Join sd x) = Clean (sd @ ''/'')"
      unfolding Dir_def using dirpart_snoc[OF x(1), of sd] by simp
    then show ?thesis using ne sd by (simp add: Clean_trailing_slash)
  qed
qed



lemma last_splitSep:
  "p \<noteq> [] \<Longrightarrow> last p \<noteq> CHR ''/'' \<Longrightarrow>
   last (splitSep p) \<noteq> [] \<and> last (last (splitSep p)) = last p"
proof (induction p)
  case Nil
  then show ?case by simp
next
  case (Cons c cs)
  show ?case
  proof (cases "cs = []")
    case True
    with Cons.prems show ?thesis by simp
  next
    case False
    with Cons have IH: "last (splitSep cs) \<noteq> [] \<and> last (last (splitSep cs)) = last cs" by simp
    obtain x xs where sp: "splitSep cs = x # xs"
      using splitSep_nonempty[of cs] by (cases "splitSep cs") auto
    show ?thesis
    proof (cases "xs = []")
      case True
      with IH sp False show ?thesis by auto
    next
      case F2: False
      with IH sp False show ?thesis by auto
    qed
  qed
qed

lemma joinSep_snoc_nonempty: "l \<noteq> [] \<Longrightarrow> joinSep (xs @ [l]) \<noteq> []"
  by (induction xs rule: joinSep.induct) auto

lemma last_joinSep: "l \<noteq> [] \<Longrightarrow> last (joinSep (xs @ [l])) = last l"
proof (induction xs rule: joinSep.induct)
  case (3 x y ys)
  then show ?case using joinSep_snoc_nonempty[of l "y # ys"] by simp
qed auto

lemma last_Clean:
  assumes "p \<noteq> []" "last p \<noteq> CHR ''/''" "last p \<noteq> CHR ''.''"
  shows "Clean p \<noteq> [] \<and> last (Clean p) = last p"
proof -
  obtain cs l where sp: "splitSep p = cs @ [l]"
    using splitSep_nonempty[of p] by (metis rev_exhaust)
  have l: "l \<noteq> []" "last l = last p"
    using last_splitSep[OF assms(1,2)] sp by auto
  have l2: "l \<noteq> ''.''" "l \<noteq> ''..''" using l assms(3) by auto
  have "foldl (cleanStep r) [] (splitSep p) = l # foldl (cleanStep r) [] cs" for r
    using l l2 by (simp add: sp cleanStep_elem)
  then have "Clean p = render (hd p = CHR ''/'') (rev (foldl (cleanStep (hd p = CHR ''/'')) [] cs) @ [l])"
    using assms(1) by (simp add: Clean_render)
  then show ?thesis using l
    by (auto simp: render_def last_joinSep joinSep_snoc_nonempty)
qed

lemma last_Join:
  assumes "b \<noteq> []" "last b \<noteq> CHR ''/''" "last b \<noteq> CHR ''.''"
  shows "last (Join a b) = last b"
  using assms last_Clean[of b] last_Clean[of "a @ CHR ''/'' # b"]
  by (auto simp: Join_def)

lemma Clean_Join_clean:
  assumes sd: "Clean sd = sd"
    and x: "CHR ''/'' \<notin> set x" "x \<noteq> []" "x \<noteq> ''.''" "x \<noteq> ''..''"
  shows "Clean (Join sd x) = Join sd x \<and> Join sd x \<noteq> sd"
proof -
  have ne: "sd \<noteq> []" using sd by (auto simp: Clean_def)
  have hdx: "hd x \<noteq> CHR ''/''" using x(1,2) by (cases x) auto
  consider (root) "sd = ''/''" "Join sd x = CHR ''/'' # x"
    | (dot) "sd = ''.''" "Join sd x = x"
    | (sub) "Join sd x = sd @ CHR ''/'' # x"
    using Join_clean_cases[OF assms] by blast
  then show ?thesis
  proof cases
    case root
    have "Clean (CHR ''/'' # x) = CHR ''/'' # x"
      using x by (simp add: Clean_def render_def splitSep_noslash cleanStep_elem cleanStep_empty
          del: splitSep.simps(2) add: splitSep_Cons)
    then show ?thesis using root x(2) by simp
  next
    case dot
    have "Clean x = x"
      using x hdx by (simp add: Clean_def render_def splitSep_noslash cleanStep_elem)
    then show ?thesis using dot x(3) by simp
  next
    case sub
    have "Join sd x = Clean (sd @ CHR ''/'' # x)" using ne by (simp add: Join_def)
    then show ?thesis using sub by simp
  qed
qed

lemma nested_not_in_dir:
  assumes "Clean dir = dir" "plainName x" "plainName y"
  shows "isFileInDir (Join dir x) dir \<and> \<not> isFileInDir (Join (Join dir x) y) dir"
proof -
  have x: "CHR ''/'' \<notin> set x" "x \<noteq> []" "x \<noteq> ''.''" "x \<noteq> ''..''"
    and y: "CHR ''/'' \<notin> set y" "y \<noteq> []" "y \<noteq> ''.''" "y \<noteq> ''..''"
    using assms(2,3) by (simp_all add: plainName_def)
  have c: "Clean (Join dir x) = Join dir x" "Join dir x \<noteq> dir"
    using Clean_Join_clean[OF assms(1) x] by simp_all
  show ?thesis
    using Dir_Join_clean[OF assms(1) x] Dir_Join_clean[OF c(1) y] c(2)
    by (simp add: isFileInDir_def)
qed

section \<open>Names that carry the descriptor extension\<close>

lemma hasSuffix_split: "hasSuffix s x \<Longrightarrow> \<exists>p. s = p @ x"
proof -
  assume h: "hasSuffix s x"
  have "take (length s - length x) s @ drop (length s - length x) s = s" by simp
  with h have "take (length s - length x) s @ x = s" by (simp add: hasSuffix_def)
  then show ?thesis by metis
qed

lemma hasSuffix_append: "hasSuffix (p @ x) x"
  by (simp add: hasSuffix_def)

lemma addDesktopExt_suffix: "hasSuffix (addDesktopExt x) ''.desktop''"
  by (simp add: addDesktopExt_def desktopExt_def hasSuffix_append)

lemma desktop_name_plain:
  assumes "hasSuffix n ''.desktop''"
  shows "n \<noteq> [] \<and> n \<noteq> ''.'' \<and> n \<noteq> ''..'' \<and> last n = CHR ''p''"
proof -
  obtain p where "n = p @ ''.desktop''" using hasSuffix_split[OF assms] by blast
  then show ?thesis by auto
qed


lemma script_not_descriptor:
  "Join sd (appId @ ''.sh'') \<noteq> Join sd (addDesktopExt appId)"
proof -
  have "last (Join sd (appId @ ''.sh'')) = CHR ''h''"
    using last_Join[of "appId @ ''.sh''" sd] by simp
  moreover have "last (Join sd (addDesktopExt appId)) = CHR ''p''"
    using last_Join[of "addDesktopExt appId" sd]
      desktop_name_plain[OF addDesktopExt_suffix[of appId]] by simp
  ultimately show ?thesis by auto
qed


section \<open>Unfolding sets\<close>

lemmas path_defs =
  Join_def Dir_def Base_def Clean_def render_def cleanStep_def hasPrefix_def hasSuffix_def

lemmas cfg_defs =
  deps0_def world0_def winFoo_def entryFoo_def entryBare_def infoAt_def dockedAt_def
  scratchSet_def manager0_def addDesktopExt_def trimDesktopExt_def desktopExt_def

lemmas io_defs =
  os_MkdirAll_def ioutil_WriteFile_def os_Remove_def IsFileExist_def copyFileContents_def
  logWarning_def

section \<open>Lemmas on the loops\<close>

lemma saveLoop_all_some:
  "\<forall>e \<in> set es. appInfo e \<noteq> None \<Longrightarrow>
   saveLoop d es acc =
     Returned (acc @ map (\<lambda>e. zipDesktopPath d (GetFileName (the (appInfo e)))) es)"
  by (induction es arbitrary: acc) auto

lemma saveDockedApps_keeps:
  "saveDockedApps d m = (r, m') \<Longrightarrow> heap m' = heap m \<and> Entries m' = Entries m"
  by (auto simp: saveDockedApps_def split: outcome.splits)

lemma removeLoop_oracles:
  "removeFails (removeLoop w b exts) = removeFails w \<and>
   writeFails (removeLoop w b exts) = writeFails w \<and>
   mkdirFails (removeLoop w b exts) = mkdirFails w"
  by (induction exts arbitrary: w) (auto simp: Let_def io_defs)

lemma removeLoop_files:
  "files (removeLoop w b exts) f =
     (if f \<in> (\<lambda>ext. b @ ext) ` set exts \<and> f \<notin> removeFails w then None else files w f)"
proof (induction exts arbitrary: w)
  case Nil
  then show ?case by simp
next
  case (Cons ext exts)
  define w1 where "w1 = (if IsFileExist w (b @ ext) then
                  (case os_Remove w (b @ ext) of
                     (Some err, w1) \<Rightarrow> logWarning w1 (WarnRemoveScratchFailed (b @ ext) err)
                   | (None, w1) \<Rightarrow> w1)
                else w)"
  have rf: "removeFails w1 = removeFails w"
    by (simp add: w1_def io_defs)
  have fl: "files w1 g = (if g = b @ ext \<and> g \<notin> removeFails w then None else files w g)" for g
    by (auto simp: w1_def io_defs)
  have "removeLoop w b (ext # exts) = removeLoop w1 b exts"
    by (simp add: w1_def Let_def)
  then show ?case using Cons.IH[of w1] rf fl by auto
qed

lemma removeLoop_warnings:
  "warnings (removeLoop w b exts) =
     warnings w @
     map (\<lambda>f. WarnRemoveScratchFailed f RemoveError)
         (filter (\<lambda>f. files w f \<noteq> None \<and> f \<in> removeFails w) (map (\<lambda>ext. b @ ext) exts))"
proof (induction exts arbitrary: w)
  case Nil
  then show ?case by simp
next
  case (Cons ext exts)
  define w1 where "w1 = (if IsFileExist w (b @ ext) then
                  (case os_Remove w (b @ ext) of
                     (Some err, w1) \<Rightarrow> logWarning w1 (WarnRemoveScratchFailed (b @ ext) err)
                   | (None, w1) \<Rightarrow> w1)
                else w)"
  have rf: "removeFails w1 = removeFails w"
    by (simp add: w1_def io_defs)
  have fl: "g \<in> removeFails w \<Longrightarrow> files w1 g = files w g" for g
    by (auto simp: w1_def io_defs)
  have wn: "warnings w1 = warnings w @
      (if files w (b @ ext) \<noteq> None \<and> b @ ext \<in> removeFails w
       then [WarnRemoveScratchFailed (b @ ext) RemoveError] else [])"
    by (auto simp: w1_def io_defs)
  have same: "(files w1 g \<noteq> None \<and> g \<in> removeFails w1) = (files w g \<noteq> None \<and> g \<in> removeFails w)" for g
    by (cases "g \<in> removeFails w") (simp_all add: rf fl)
  have "removeLoop w b (ext # exts) = removeLoop w1 b exts"
    by (simp add: w1_def Let_def)
  then show ?case using Cons.IH[of w1] wn same by simp
qed

lemma hasSuffix_last: "hasSuffix s x \<Longrightarrow> x \<noteq> [] \<Longrightarrow> last s = last x"
  using hasSuffix_split[of s x] by auto

lemma trimDesktopExt_ext:
  assumes "ext \<in> set extList"
  shows "trimDesktopExt (base @ ext) = base"
proof -
  have sh: "\<not> hasSuffix (base @ ''.sh'') ''.desktop''"
    using hasSuffix_last[of "base @ ''.sh''" "''.desktop''"] by auto
  have png1: "\<not> hasSuffix (base @ ''.png'') ''.desktop''"
    using hasSuffix_last[of "base @ ''.png''" "''.desktop''"] by auto
  have png2: "\<not> hasSuffix (base @ ''.png'') ''.sh''"
    using hasSuffix_last[of "base @ ''.png''" "''.sh''"] by auto
  consider "ext = ''.desktop''" | "ext = ''.sh''" | "ext = ''.png''"
    using assms by (auto simp: extList_def)
  then show ?thesis
  proof cases
    case 1
    then show ?thesis
      using hasSuffix_append[of base "''.desktop''"]
      by (simp add: trimDesktopExt_def desktopExt_def)
  next
    case 2
    then show ?thesis
      using sh hasSuffix_append[of base "''.sh''"]
      by (simp add: trimDesktopExt_def desktopExt_def)
  next
    case 3
    then show ?thesis
      using png1 png2 hasSuffix_append[of base "''.png''"]
      by (simp add: trimDesktopExt_def desktopExt_def)
  qed
qed

section \<open>The invariant, step by step\<close>

lemma dockEntry_keeps_invariant:
  assumes "dockEntry d w entry = (r, entry', w')"
    and "IsDocked entry \<longrightarrow> appInfo entry \<noteq> None"
  shows "IsDocked entry' \<longrightarrow> appInfo entry' \<noteq> None"
  using assms
  by (auto simp: dockEntry_def needScratchDesktop_def
      split: if_splits prod.splits sum.splits option.splits)

lemma undockEntry_keeps_invariant:
  assumes "undockEntry d w m a = (r, m', w')" and "dockedHasAppInfo m"
  shows "dockedHasAppInfo m'"
proof -
  have "heap m' = heap m \<or>
        (\<exists>e. heap m' = (heap m)(a := e) \<and> \<not> IsDocked e)"
    using assms(1)
    by (auto simp: undockEntry_def Let_def removeAppEntry_def undockFields_def
        split: if_splits option.splits prod.splits dest!: saveDockedApps_keeps)
  then show ?thesis using assms(2) by (auto simp: dockedHasAppInfo_def)
qed

lemma step_keeps_invariant:
  assumes "step d (m, w) operation = (p, m', w')" and "dockedHasAppInfo m"
  shows "dockedHasAppInfo m'"
proof (cases operation)
  case (Dock a)
  obtain r e' w1 where de: "dockEntry d w (heap m a) = (r, e', w1)"
    by (cases "dockEntry d w (heap m a)")
  with Dock assms(1) have m': "m' = m\<lparr>heap := (heap m)(a := e')\<rparr>"
    by (simp add: step_def)
  have "IsDocked e' \<longrightarrow> appInfo e' \<noteq> None"
    using dockEntry_keeps_invariant[OF de] assms(2) by (simp add: dockedHasAppInfo_def)
  then show ?thesis using assms(2) by (simp add: m' dockedHasAppInfo_def)
next
  case (Undock a)
  obtain r m1 w1 where ue: "undockEntry d w m a = (r, m1, w1)"
    by (cases "undockEntry d w m a")
  with Undock assms(1) have "m' = m1" by (simp add: step_def)
  then show ?thesis using undockEntry_keeps_invariant[OF ue assms(2)] by simp
qed

lemma run_keeps_invariant:
  "dockedHasAppInfo m \<Longrightarrow> dockedHasAppInfo (fst (snd (run d ops (m, w))))"
proof (induction ops arbitrary: m w)
  case Nil
  then show ?case by simp
next
  case (Cons operation rest)
  obtain p m1 w1 where st: "step d (m, w) operation = (p, m1, w1)"
    by (cases "step d (m, w) operation")
  have inv1: "dockedHasAppInfo m1"
    using step_keeps_invariant[OF st Cons.prems] .
  show ?case
  proof (cases p)
    case True
    then show ?thesis using st inv1 by simp
  next
    case False
    then show ?thesis using st Cons.IH[OF inv1, of w1] by simp
  qed
qed

lemma dockEntry_docks_with_appInfo:
  assumes "\<not> IsDocked entry" "IsDocked (fst (snd (dockEntry d w entry)))"
  shows "appInfo (fst (snd (dockEntry d w entry))) \<noteq> None"
  using assms
  by (auto simp: dockEntry_def needScratchDesktop_def
      split: if_splits prod.splits sum.splits option.splits)

lemma undockEntry_changes_appInfo:
  assumes "appInfo (heap (fst (snd (undockEntry d w m a))) b) \<noteq> appInfo (heap m b)"
  shows "b = a \<and> \<not> IsDocked (heap (fst (snd (undockEntry d w m a))) b)"
proof -
  obtain r m' w' where res: "undockEntry d w m a = (r, m', w')"
    by (cases "undockEntry d w m a")
  have "heap m' = heap m \<or>
        (\<exists>e. heap m' = (heap m)(a := e) \<and> \<not> IsDocked e)"
    using res
    by (auto simp: undockEntry_def Let_def removeAppEntry_def undockFields_def
        split: if_splits option.splits prod.splits dest!: saveDockedApps_keeps)
  then show ?thesis using assms by (auto simp: res split: if_splits)
qed

section \<open>Facts of the concrete configuration\<close>

lemma dir_w: "Dir ''/scratch/w:foo.desktop'' = ''/scratch''"
  by (simp add: path_defs)
lemma dir_d: "Dir ''/scratch/d:abc.desktop'' = ''/scratch''"
  by (simp add: path_defs)
lemma base_w: "Base ''/scratch/w:foo.desktop'' = ''w:foo.desktop''"
  by (simp add: path_defs)
lemma base_d: "Base ''/scratch/d:abc.desktop'' = ''d:abc.desktop''"
  by (simp add: path_defs)

lemma dock_foo:
  "dockEntry deps0 world0 entryFoo =
     (Returned (True, None),
      entryFoo\<lparr>appInfo := Some (infoAt ''/scratch/w:foo.desktop''), innerId := ''w:foo'',
                IsDocked := True\<rparr>,
      world0\<lparr>files := [''/scratch/w:foo.sh'' \<mapsto> ''foo-bin'',
                   ''/scratch/w:foo.desktop'' \<mapsto>
                     dockedItemTemplate ''Foo'' ''/scratch/w:foo.sh %U'' ''application-default-icon'']\<rparr>)"
  by (simp add: dockEntry_def needScratchDesktop_def NewAppInfoFromFile_def
      createScratchDesktopFileWithAppEntry_def createScratchDesktopFile_def
      path_defs io_defs cfg_defs dataUriToFile_def Let_def)

lemma undock_w:
  "heap (fst (snd (undockEntry deps0 world0 (manager0 entryW) 0))) 0 =
     entryW\<lparr>innerId := ''w:foo'', appInfo := None, IsDocked := False\<rparr>"
  by (simp add: undockEntry_def undockFields_def manager0_def entryW_def dockedAt_def
      infoAt_def hasWindow_def isFileInDir_def dir_w base_w deps0_def hasPrefix_def winFoo_def
      saveDockedApps_def FilterDocked_def Let_def split: prod.splits outcome.splits)

section \<open>The claims\<close>

text \<open>
  C1. Along every sequence of \<open>dockEntry\<close> and \<open>undockEntry\<close> calls, on any
  entries, that starts in a state where each docked entry has launcher metadata,
  each entry whose \<open>IsDocked\<close> is true has a non-nil \<open>appInfo\<close> after every call
  (also in the state a panicking call leaves). This is so because an entry that
  \<open>dockEntry\<close> turns docked has an \<open>appInfo\<close> in place, and because
  \<open>undockEntry\<close> changes the \<open>appInfo\<close> of no entry but the one it is called on,
  and of that one only when it leaves it undocked.
\<close>

theorem docked_entries_have_appInfo:
  "(dockedHasAppInfo m \<longrightarrow> dockedHasAppInfo (fst (snd (run d ops (m, w))))) \<and>
   (\<not> IsDocked entry \<and> IsDocked (fst (snd (dockEntry d w entry))) \<longrightarrow>
      appInfo (fst (snd (dockEntry d w entry))) \<noteq> None) \<and>
   (appInfo (heap (fst (snd (undockEntry d w m a))) b) \<noteq> appInfo (heap m b) \<longrightarrow>
      b = a \<and> \<not> IsDocked (heap (fst (snd (undockEntry d w m a))) b))"
  using run_keeps_invariant[of m d ops w] dockEntry_docks_with_appInfo[of entry d w]
    undockEntry_changes_appInfo[of d w m a b]
  by blast

theorem docked_entries_have_appInfo_witness:
  "dockedHasAppInfo (manager0 entryFoo) \<and>
   dockedHasAppInfo (fst (snd (run deps0 [Dock 0, Dock 1, Undock 0] (manager0 entryFoo, world0)))) \<and>
   \<not> IsDocked entryFoo \<and> IsDocked (fst (snd (dockEntry deps0 world0 entryFoo))) \<and>
   appInfo (fst (snd (dockEntry deps0 world0 entryFoo))) \<noteq> None \<and>
   appInfo (heap (fst (snd (undockEntry deps0 world0 (manager0 entryW) 0))) 0) \<noteq>
     appInfo (heap (manager0 entryW) 0) \<and>
   \<not> IsDocked (heap (fst (snd (undockEntry deps0 world0 (manager0 entryW) 0))) 0)"
proof -
  have h: "dockedHasAppInfo (manager0 entryFoo)"
    by (simp add: dockedHasAppInfo_def manager0_def entryFoo_def entryBare_def)
  have d1: "\<not> IsDocked entryFoo" by (simp add: entryFoo_def)
  have d2: "IsDocked (fst (snd (dockEntry deps0 world0 entryFoo)))"
    by (simp add: dock_foo)
  have u1: "appInfo (heap (fst (snd (undockEntry deps0 world0 (manager0 entryW) 0))) 0) \<noteq>
     appInfo (heap (manager0 entryW) 0)"
    by (simp add: undock_w) (simp add: manager0_def entryW_def dockedAt_def)
  show ?thesis
    using h d1 d2 u1
      docked_entries_have_appInfo [where m = "manager0 entryFoo" and d = deps0
        and ops = "[Dock 0, Dock 1, Undock 0]" and w = world0 and entry = entryFoo]
      docked_entries_have_appInfo [where m = "manager0 entryW" and d = deps0
        and w = world0 and a = 0 and b = 0]
    by simp
qed

text \<open>
  C2. When the entry is not docked, a scratch descriptor is needed and
  \<open>createScratchDesktopFileWithAppEntry\<close> returns an error, \<open>dockEntry\<close> returns
  \<open>false\<close> with that error and the entry is the one it was given: \<open>IsDocked\<close>,
  \<open>appInfo\<close>, \<open>innerId\<close> and \<open>current\<close> are as before the call.
\<close>

theorem dockEntry_synthesis_failure:
  "\<not> IsDocked entry \<Longrightarrow> needScratchDesktop d (appInfo entry) \<Longrightarrow>
   createScratchDesktopFileWithAppEntry d w entry = (Inl err, w') \<Longrightarrow>
   dockEntry d w entry =
     (Returned (False, Some err), entry, logWarning w' (WarnCreateScratchFailed err))"
  by (simp add: dockEntry_def)

theorem dockEntry_synthesis_failure_witness:
  "\<not> IsDocked entryBare \<and> needScratchDesktop deps0 (appInfo entryBare) \<and>
   createScratchDesktopFileWithAppEntry deps0 world0 entryBare = (Inl EntryCurrentIsNil, world0) \<and>
   dockEntry deps0 world0 entryBare =
     (Returned (False, Some EntryCurrentIsNil), entryBare,
      world0\<lparr>warnings := [WarnCreateScratchFailed EntryCurrentIsNil]\<rparr>)"
proof -
  have h1: "\<not> IsDocked entryBare" by (simp add: entryBare_def)
  have h2: "needScratchDesktop deps0 (appInfo entryBare)"
    by (simp add: needScratchDesktop_def entryBare_def)
  have h3: "createScratchDesktopFileWithAppEntry deps0 world0 entryBare = (Inl EntryCurrentIsNil, world0)"
    by (simp add: createScratchDesktopFileWithAppEntry_def os_MkdirAll_def entryBare_def world0_def)
  show ?thesis
    using h1 h2 h3 dockEntry_synthesis_failure [OF h1 h2 h3]
    by (simp add: logWarning_def world0_def)
qed

text \<open>
  C3. \<open>needScratchDesktop\<close> is true for nil metadata, false for metadata marked
  installed, false for metadata whose file lies in the scratch directory, and true
  otherwise. A file lies in a directory exactly when \<open>filepath.Dir\<close> of the file,
  its immediate parent, equals the directory: for a clean directory, a plain name
  joined to it lies in it, and a file one level further down does not.
\<close>

theorem needScratchDesktop_cases:
  "needScratchDesktop d None \<and>
   (IsInstalled info \<longrightarrow> \<not> needScratchDesktop d (Some info)) \<and>
   (isFileInDir (GetFileName info) (scratchDir d) \<longrightarrow> \<not> needScratchDesktop d (Some info)) \<and>
   (\<not> IsInstalled info \<and> \<not> isFileInDir (GetFileName info) (scratchDir d) \<longrightarrow>
      needScratchDesktop d (Some info)) \<and>
   isFileInDir file dir = (Dir file = dir) \<and>
   (Clean dir = dir \<and> plainName x \<and> plainName y \<longrightarrow>
      isFileInDir (Join dir x) dir \<and> \<not> isFileInDir (Join (Join dir x) y) dir)"
  using nested_not_in_dir[of dir x y]
  by (simp add: needScratchDesktop_def isFileInDir_def)

theorem needScratchDesktop_cases_witness:
  "needScratchDesktop deps0 None \<and>
   \<not> needScratchDesktop deps0 (Some infoInstalled) \<and>
   \<not> needScratchDesktop deps0 (Some (infoAt ''/scratch/x.desktop'')) \<and>
   needScratchDesktop deps0 (Some (infoAt ''/usr/share/applications/x.desktop'')) \<and>
   isFileInDir ''/scratch/x.desktop'' ''/scratch'' \<and>
   \<not> isFileInDir ''/scratch/sub/x.desktop'' ''/scratch''"
proof -
  have sd: "scratchDir deps0 = ''/scratch''" by (simp add: deps0_def)
  have i1: "IsInstalled infoInstalled" by (simp add: infoInstalled_def)
  have i2: "isFileInDir (GetFileName (infoAt ''/scratch/x.desktop'')) (scratchDir deps0)"
    by (simp add: infoAt_def sd isFileInDir_def path_defs)
  have i3: "\<not> IsInstalled (infoAt ''/usr/share/applications/x.desktop'') \<and>
            \<not> isFileInDir (GetFileName (infoAt ''/usr/share/applications/x.desktop'')) (scratchDir deps0)"
    by (simp add: infoAt_def sd isFileInDir_def path_defs)
  have i4: "Clean ''/scratch'' = ''/scratch'' \<and> plainName ''sub'' \<and> plainName ''x.desktop''"
    by (simp add: plainName_def path_defs)
  have j1: "Join ''/scratch'' ''sub'' = ''/scratch/sub''"
    by (simp add: path_defs)
  have j2: "Join ''/scratch/sub'' ''x.desktop'' = ''/scratch/sub/x.desktop''"
    by (simp add: path_defs)
  have j3: "Join ''/scratch'' ''x.desktop'' = ''/scratch/x.desktop''"
    by (simp add: path_defs)
  show ?thesis
    using needScratchDesktop_cases [of deps0 infoInstalled "''/scratch/x.desktop''" "''/scratch''"
        "''sub''" "''x.desktop''"]
      needScratchDesktop_cases [of deps0 "infoAt ''/scratch/x.desktop''"
        "''/scratch/x.desktop''" "''/scratch''" "''x.desktop''" "''x.desktop''"]
      needScratchDesktop_cases [of deps0 "infoAt ''/usr/share/applications/x.desktop''"]
      i1 i2 i3 i4
    by (simp add: j1 j2 j3 plainName_def)
qed

text \<open>
  C4, as amended. For a docked entry whose launcher file lies in the scratch
  directory and which has no window left, \<open>undockEntry\<close> removes the entry from
  the tracked collection, and of the \<open>.desktop\<close>, \<open>.sh\<close> and \<open>.png\<close> siblings of the
  launcher file each one whose removal the system does not refuse is gone after
  the call; a sibling whose removal fails stays as it was.
\<close>

theorem undockEntry_no_window_scratch:
  assumes docked: "IsDocked (heap m a)"
    and info: "appInfo (heap m a) = Some ai"
    and scratch: "isFileInDir (GetFileName ai) (scratchDir d)"
    and nowin: "\<not> hasWindow (heap m a)"
    and res: "undockEntry d w m a = (r, m', w')"
  shows "a \<notin> set (Entries m') \<and>
         (\<forall>ext \<in> set extList.
            files w' (trimDesktopExt (GetFileName ai) @ ext) =
              (if trimDesktopExt (GetFileName ai) @ ext \<in> removeFails w
               then files w (trimDesktopExt (GetFileName ai) @ ext) else None))"
proof -
  obtain r0 m0 where sv: "saveDockedApps d (removeAppEntry m a) = (r0, m0)"
    by (cases "saveDockedApps d (removeAppEntry m a)")
  have "undockEntry d w m a = (r0, m0, removeScratchFiles w (GetFileName ai))"
    using docked info scratch nowin sv by (simp add: undockEntry_def Let_def)
  with res have m': "m' = m0" and w': "w' = removeScratchFiles w (GetFileName ai)"
    by simp_all
  have "Entries m0 = Entries (removeAppEntry m a)"
    using saveDockedApps_keeps[OF sv] by simp
  then have gone: "a \<notin> set (Entries m')"
    by (simp add: m' removeAppEntry_def)
  have "files w' (trimDesktopExt (GetFileName ai) @ ext) =
          (if trimDesktopExt (GetFileName ai) @ ext \<in> removeFails w
           then files w (trimDesktopExt (GetFileName ai) @ ext) else None)"
    if "ext \<in> set extList" for ext
    using that by (simp add: w' removeScratchFiles_def removeLoop_files)
  with gone show ?thesis by blast
qed

theorem undockEntry_no_window_scratch_witness:
  "IsDocked (heap (manager0 (dockedAt ''/scratch/app1.desktop'' None [])) 0) \<and>
   isFileInDir ''/scratch/app1.desktop'' (scratchDir deps0) \<and>
   \<not> hasWindow (heap (manager0 (dockedAt ''/scratch/app1.desktop'' None [])) 0) \<and>
   0 \<notin> set (Entries (fst (snd (undockEntry deps0 (worldApp1 {})
                 (manager0 (dockedAt ''/scratch/app1.desktop'' None [])) 0)))) \<and>
   files (snd (snd (undockEntry deps0 (worldApp1 {})
                 (manager0 (dockedAt ''/scratch/app1.desktop'' None [])) 0)))
         ''/scratch/app1.desktop'' = None \<and>
   files (snd (snd (undockEntry deps0 (worldApp1 {})
                 (manager0 (dockedAt ''/scratch/app1.desktop'' None [])) 0)))
         ''/scratch/app1.sh'' = None \<and>
   files (snd (snd (undockEntry deps0 (worldApp1 {})
                 (manager0 (dockedAt ''/scratch/app1.desktop'' None [])) 0)))
         ''/scratch/app1.png'' = None"
proof -
  let ?m = "manager0 (dockedAt ''/scratch/app1.desktop'' None [])"
  let ?ai = "infoAt ''/scratch/app1.desktop''"
  have h1: "IsDocked (heap ?m 0)" by (simp add: manager0_def dockedAt_def)
  have h2: "appInfo (heap ?m 0) = Some ?ai" by (simp add: manager0_def dockedAt_def)
  have h3: "isFileInDir (GetFileName ?ai) (scratchDir deps0)"
    by (simp add: isFileInDir_def infoAt_def deps0_def path_defs)
  have h4: "\<not> hasWindow (heap ?m 0)" by (simp add: manager0_def dockedAt_def hasWindow_def)
  obtain r m' w' where res: "undockEntry deps0 (worldApp1 {}) ?m 0 = (r, m', w')"
    by (cases "undockEntry deps0 (worldApp1 {}) ?m 0")
  have tr: "trimDesktopExt ''/scratch/app1.desktop'' = ''/scratch/app1''"
    by (simp add: trimDesktopExt_def desktopExt_def hasSuffix_def)
  have rf: "removeFails (worldApp1 {}) = {}"
    by (simp add: worldApp1_def world0_def)
  have fn: "GetFileName ?ai = ''/scratch/app1.desktop''"
    by (simp add: infoAt_def)
  show ?thesis
    using h1 h3 h4 undockEntry_no_window_scratch [OF h1 h2 h3 h4 res]
    by (simp add: res tr extList_def rf fn)
qed

text \<open>
  C4 as stated fails when a removal fails: with the removal of
  \<open>/scratch/app1.sh\<close> refused, the entry is docked, scratch-backed and without
  window, and after \<open>undockEntry\<close> the script file is still there.
\<close>

theorem undockEntry_no_window_counterexample:
  "IsDocked (heap (manager0 (dockedAt ''/scratch/app1.desktop'' None [])) 0) \<and>
   isFileInDir ''/scratch/app1.desktop'' (scratchDir deps0) \<and>
   \<not> hasWindow (heap (manager0 (dockedAt ''/scratch/app1.desktop'' None [])) 0) \<and>
   files (snd (snd (undockEntry deps0 (worldApp1 {''/scratch/app1.sh''})
                 (manager0 (dockedAt ''/scratch/app1.desktop'' None [])) 0)))
         ''/scratch/app1.sh'' = Some ''s''"
  by (simp add: undockEntry_def manager0_def dockedAt_def infoAt_def hasWindow_def
      isFileInDir_def deps0_def path_defs removeScratchFiles_def removeLoop_files
      trimDesktopExt_def desktopExt_def worldApp1_def world0_def scratchSet_def
      saveDockedApps_def removeAppEntry_def FilterDocked_def Let_def
      split: prod.splits outcome.splits del: removeLoop.simps)

text \<open>
  C5. For a window-only entry (no \<open>appInfo\<close>, a current window) with display name
  \<open>Foo\<close>, empty icon and command \<open>foo-bin\<close>, when the directory creation and the
  two writes do not fail, \<open>createScratchDesktopFileWithAppEntry\<close> returns the
  descriptor path, the script file holds \<open>foo-bin\<close>, and the descriptor is the
  fixed template with \<open>Name=Foo\<close>, \<open>Exec=\<close> the script path followed by \<open> %U\<close>,
  and \<open>Icon=application-default-icon\<close>.
\<close>

theorem createScratch_window_only:
  assumes noinfo: "appInfo entry = None"
    and cur: "current entry = Some cur"
    and title: "getDisplayName cur = ''Foo''"
    and icon: "getIcon cur = []"
    and cmd: "getExec d entry False = ''foo-bin''"
    and script: "scriptFile = Join (scratchDir d) (getInnerId cur @ ''.sh'')"
    and desktop: "desktopFile = Join (scratchDir d) (addDesktopExt (getInnerId cur))"
    and content: "content =
       ''[Desktop Entry]\<newline>Name=Foo\<newline>Exec='' @ scriptFile @
       '' %U\<newline>Icon=application-default-icon\<newline>Type=Application\<newline>Terminal=false\<newline>StartupNotify=false\<newline>''"
    and io: "scratchDir d \<notin> mkdirFails w" "scriptFile \<notin> writeFails w"
            "desktopFile \<notin> writeFails w"
  shows "createScratchDesktopFileWithAppEntry d w entry =
           (Inr desktopFile,
            w\<lparr>files := (files w)(scriptFile \<mapsto> ''foo-bin'', desktopFile \<mapsto> content)\<rparr>) \<and>
         files (snd (createScratchDesktopFileWithAppEntry d w entry)) scriptFile =
           Some ''foo-bin'' \<and>
         files (snd (createScratchDesktopFileWithAppEntry d w entry)) desktopFile =
           Some content"
proof -
  have ne: "scriptFile \<noteq> desktopFile"
    using script_not_descriptor[of "scratchDir d" "getInnerId cur"] script desktop by simp
  have icon_none: "\<not> hasPrefix [] ''data:image''"
    by (simp add: hasPrefix_def)
  have step1: "createScratchDesktopFileWithAppEntry d w entry =
      (case ioutil_WriteFile w scriptFile ''foo-bin'' of
         (Some err, w2) \<Rightarrow> (Inl err, w2)
       | (None, w2) \<Rightarrow>
           createScratchDesktopFile d w2 (getInnerId cur) ''Foo''
             ''application-default-icon'' (scriptFile @ '' %U''))"
    unfolding createScratchDesktopFileWithAppEntry_def script
    by (simp add: noinfo cur title icon cmd io(1) os_MkdirAll_def icon_none Let_def)
  have step2: "ioutil_WriteFile w scriptFile ''foo-bin'' =
      (None, w\<lparr>files := (files w)(scriptFile \<mapsto> ''foo-bin'')\<rparr>)"
    using io(2) by (simp add: ioutil_WriteFile_def)
  have step3: "createScratchDesktopFile d (w\<lparr>files := (files w)(scriptFile \<mapsto> ''foo-bin'')\<rparr>)
        (getInnerId cur) ''Foo'' ''application-default-icon'' (scriptFile @ '' %U'') =
      (Inr desktopFile,
       w\<lparr>files := (files w)(scriptFile \<mapsto> ''foo-bin'', desktopFile \<mapsto> content)\<rparr>)"
    using io(3)
    by (simp add: createScratchDesktopFile_def ioutil_WriteFile_def dockedItemTemplate_def
        desktop[symmetric] content)
  have res: "createScratchDesktopFileWithAppEntry d w entry =
           (Inr desktopFile,
            w\<lparr>files := (files w)(scriptFile \<mapsto> ''foo-bin'', desktopFile \<mapsto> content)\<rparr>)"
    by (simp add: step1 step2 step3)
  show ?thesis using ne by (simp add: res)
qed

theorem createScratch_window_only_witness:
  "appInfo entryFoo = None \<and> current entryFoo = Some winFoo \<and>
   getDisplayName winFoo = ''Foo'' \<and> getIcon winFoo = [] \<and>
   getExec deps0 entryFoo False = ''foo-bin'' \<and>
   fst (createScratchDesktopFileWithAppEntry deps0 world0 entryFoo) =
     Inr ''/scratch/w:foo.desktop'' \<and>
   files (snd (createScratchDesktopFileWithAppEntry deps0 world0 entryFoo))
     ''/scratch/w:foo.sh'' = Some ''foo-bin'' \<and>
   files (snd (createScratchDesktopFileWithAppEntry deps0 world0 entryFoo))
     ''/scratch/w:foo.desktop'' =
     Some ''[Desktop Entry]\<newline>Name=Foo\<newline>Exec=/scratch/w:foo.sh %U\<newline>Icon=application-default-icon\<newline>Type=Application\<newline>Terminal=false\<newline>StartupNotify=false\<newline>''"
proof -
  have a1: "appInfo entryFoo = None" by (simp add: entryFoo_def)
  have a2: "current entryFoo = Some winFoo" by (simp add: entryFoo_def)
  have a3: "getDisplayName winFoo = ''Foo''" by (simp add: winFoo_def)
  have a4: "getIcon winFoo = []" by (simp add: winFoo_def)
  have a5: "getExec deps0 entryFoo False = ''foo-bin''" by (simp add: deps0_def)
  have a6: "''/scratch/w:foo.sh'' = Join (scratchDir deps0) (getInnerId winFoo @ ''.sh'')"
    by (simp add: deps0_def winFoo_def path_defs)
  have a7: "''/scratch/w:foo.desktop'' = Join (scratchDir deps0) (addDesktopExt (getInnerId winFoo))"
    by (simp add: deps0_def winFoo_def addDesktopExt_def desktopExt_def path_defs)
  have a8: "scratchDir deps0 \<notin> mkdirFails world0" "''/scratch/w:foo.sh'' \<notin> writeFails world0"
    "''/scratch/w:foo.desktop'' \<notin> writeFails world0"
    by (simp_all add: world0_def)
  note r = createScratch_window_only [OF a1 a2 a3 a4 a5 a6 a7 refl a8]
  show ?thesis
    using a1 a2 a3 a4 a5 r by simp
qed

text \<open>
  C6, as amended. For a docked entry whose launcher file lies in the scratch
  directory and which still has a window, \<open>undockEntry\<close> leaves the entry
  undocked and, when the entry has a current window: if the base name of the
  scratch file starts with the window-hash prefix, \<open>innerId\<close> is the current
  window's identity and \<open>appInfo\<close> is nil; otherwise \<open>innerId\<close> and \<open>appInfo\<close> are
  the two results of \<open>identifyWindow\<close> on the current window. When the entry has
  no current window, \<open>innerId\<close> and \<open>appInfo\<close> stay as they were.
\<close>

theorem undockEntry_window_scratch:
  assumes docked: "IsDocked (heap m a)"
    and info: "appInfo (heap m a) = Some ai"
    and scratch: "isFileInDir (GetFileName ai) (scratchDir d)"
    and win: "hasWindow (heap m a)"
    and res: "undockEntry d w m a = (r, m', w')"
  shows "heap m' a =
           (case current (heap m a) of
              None \<Rightarrow> (heap m a)\<lparr>IsDocked := False\<rparr>
            | Some cur \<Rightarrow>
                (if hasPrefix (Base (GetFileName ai)) (windowHashPrefix d)
                 then (heap m a)\<lparr>innerId := getInnerId cur, appInfo := None, IsDocked := False\<rparr>
                 else (heap m a)\<lparr>innerId := fst (identifyWindow d (files w') cur),
                                  appInfo := snd (identifyWindow d (files w') cur),
                                  IsDocked := False\<rparr>))"
proof -
  define w1 where "w1 = removeScratchFiles w (GetFileName ai)"
  define m1 where "m1 = m\<lparr>heap := (heap m)(a := undockFields d w1 (heap m a) (GetFileName ai) True)\<rparr>"
  obtain r0 m0 where sv: "saveDockedApps d m1 = (r0, m0)"
    by (cases "saveDockedApps d m1")
  have "undockEntry d w m a = (r0, m0, w1)"
    using docked info scratch win sv by (simp add: undockEntry_def Let_def w1_def m1_def)
  with res have m': "m' = m0" and w': "w' = w1" by simp_all
  have "heap m0 = heap m1" using saveDockedApps_keeps[OF sv] by simp
  then have "heap m' a = undockFields d w' (heap m a) (GetFileName ai) True"
    by (simp add: m' w' m1_def)
  then show ?thesis
    by (simp add: undockFields_def Let_def split: option.splits prod.splits)
qed

theorem undockEntry_window_scratch_witness:
  "hasWindow entryW \<and> current entryW = Some winFoo \<and>
   heap (fst (snd (undockEntry deps0 world0 (manager0 entryW) 0))) 0 =
     entryW\<lparr>innerId := ''w:foo'', appInfo := None, IsDocked := False\<rparr> \<and>
   hasWindow entryD \<and> current entryD = Some winFoo \<and>
   heap (fst (snd (undockEntry deps0 world0 (manager0 entryD) 0))) 0 =
     entryD\<lparr>innerId := ''d:Foo'', appInfo := None, IsDocked := False\<rparr>"
proof -
  have w1: "IsDocked (heap (manager0 entryW) 0)"
    by (simp add: manager0_def entryW_def dockedAt_def)
  have w2: "appInfo (heap (manager0 entryW) 0) = Some (infoAt ''/scratch/w:foo.desktop'')"
    by (simp add: manager0_def entryW_def dockedAt_def)
  have w3: "isFileInDir (GetFileName (infoAt ''/scratch/w:foo.desktop'')) (scratchDir deps0)"
    by (simp add: isFileInDir_def infoAt_def deps0_def dir_w)
  have w4: "hasWindow (heap (manager0 entryW) 0)"
    by (simp add: manager0_def entryW_def dockedAt_def hasWindow_def)
  obtain r m' w' where res: "undockEntry deps0 world0 (manager0 entryW) 0 = (r, m', w')"
    by (cases "undockEntry deps0 world0 (manager0 entryW) 0")
  have d1: "IsDocked (heap (manager0 entryD) 0)"
    by (simp add: manager0_def entryD_def dockedAt_def)
  have d2: "appInfo (heap (manager0 entryD) 0) = Some (infoAt ''/scratch/d:abc.desktop'')"
    by (simp add: manager0_def entryD_def dockedAt_def)
  have d3: "isFileInDir (GetFileName (infoAt ''/scratch/d:abc.desktop'')) (scratchDir deps0)"
    by (simp add: isFileInDir_def infoAt_def deps0_def dir_d)
  have d4: "hasWindow (heap (manager0 entryD) 0)"
    by (simp add: manager0_def entryD_def dockedAt_def hasWindow_def)
  obtain r2 m2 w2 where res2: "undockEntry deps0 world0 (manager0 entryD) 0 = (r2, m2, w2)"
    by (cases "undockEntry deps0 world0 (manager0 entryD) 0")
  have hp: "heap (manager0 e) 0 = e" for e
    by (simp add: manager0_def)
  have curW: "current entryW = Some winFoo"
    by (simp add: entryW_def dockedAt_def)
  have curD: "current entryD = Some winFoo"
    by (simp add: entryD_def dockedAt_def)
  have A: "heap m' 0 = entryW\<lparr>innerId := ''w:foo'', appInfo := None, IsDocked := False\<rparr>"
    using undockEntry_window_scratch [OF w1 w2 w3 w4 res]
    by (simp add: hp curW infoAt_def base_w deps0_def hasPrefix_def winFoo_def)
  have B: "heap m2 0 = entryD\<lparr>innerId := ''d:Foo'', appInfo := None, IsDocked := False\<rparr>"
    using undockEntry_window_scratch [OF d1 d2 d3 d4 res2]
    by (simp add: hp curD infoAt_def base_d deps0_def hasPrefix_def winFoo_def)
  show ?thesis
    using A B w4 d4 curW curD by (simp add: res res2 hp)
qed

text \<open>
  C6 as stated fails for an entry with a window but no current window: the
  scratch file is named by the window-hash prefix, and after \<open>undockEntry\<close> the
  launcher metadata is still the one of the removed scratch file.
\<close>

theorem undockEntry_window_no_current_counterexample:
  "IsDocked (heap (manager0 entryNoCurrent) 0) \<and>
   isFileInDir ''/scratch/w:foo.desktop'' (scratchDir deps0) \<and>
   hasWindow (heap (manager0 entryNoCurrent) 0) \<and>
   hasPrefix (Base ''/scratch/w:foo.desktop'') (windowHashPrefix deps0) \<and>
   appInfo (heap (fst (snd (undockEntry deps0 world0 (manager0 entryNoCurrent) 0))) 0) =
     Some (infoAt ''/scratch/w:foo.desktop'') \<and>
   innerId (heap (fst (snd (undockEntry deps0 world0 (manager0 entryNoCurrent) 0))) 0) =
     innerId entryNoCurrent"
  by (simp add: undockEntry_def undockFields_def manager0_def entryNoCurrent_def dockedAt_def
      infoAt_def hasWindow_def isFileInDir_def dir_w base_w deps0_def hasPrefix_def
      saveDockedApps_def FilterDocked_def Let_def split: prod.splits outcome.splits)

text \<open>
  C7. Given any path of a scratch set, the descriptor \<open>base.desktop\<close>, the script
  \<open>base.sh\<close> or the image \<open>base.png\<close>, \<open>removeScratchFiles\<close> finds the shared
  base and removes each of \<open>base.desktop\<close>, \<open>base.sh\<close> and \<open>base.png\<close> that
  exists, unless the system refuses the removal; a missing sibling is skipped and
  every other file is left as it was. For each sibling that exists and whose
  removal fails it logs one warning, and it returns normally: it has no error
  result.
\<close>

theorem removeScratchFiles_any_member:
  assumes "ext \<in> set extList"
  shows "files (removeScratchFiles w (base @ ext)) f =
           (if f \<in> {base @ ''.desktop'', base @ ''.sh'', base @ ''.png''} \<and> f \<notin> removeFails w
            then None else files w f) \<and>
         warnings (removeScratchFiles w (base @ ext)) =
           warnings w @
           map (\<lambda>f. WarnRemoveScratchFailed f RemoveError)
               (filter (\<lambda>f. files w f \<noteq> None \<and> f \<in> removeFails w)
                       [base @ ''.desktop'', base @ ''.sh'', base @ ''.png''])"
  by (simp add: removeScratchFiles_def trimDesktopExt_ext[OF assms] removeLoop_files
      removeLoop_warnings extList_def del: removeLoop.simps)

theorem removeScratchFiles_any_member_witness:
  "''.sh'' \<in> set extList \<and>
   files (removeScratchFiles (worldApp1 {''/scratch/app1.png''}) ''/scratch/app1.sh'')
     ''/scratch/app1.desktop'' = None \<and>
   files (removeScratchFiles (worldApp1 {''/scratch/app1.png''}) ''/scratch/app1.sh'')
     ''/scratch/app1.sh'' = None \<and>
   files (removeScratchFiles (worldApp1 {''/scratch/app1.png''}) ''/scratch/app1.sh'')
     ''/scratch/app1.png'' = Some ''p'' \<and>
   warnings (removeScratchFiles (worldApp1 {''/scratch/app1.png''}) ''/scratch/app1.sh'') =
     [WarnRemoveScratchFailed ''/scratch/app1.png'' RemoveError]"
proof -
  have h: "''.sh'' \<in> set extList" by (simp add: extList_def)
  have rf: "removeFails (worldApp1 {''/scratch/app1.png''}) = {''/scratch/app1.png''}"
    "warnings (worldApp1 {''/scratch/app1.png''}) = []"
    "files (worldApp1 {''/scratch/app1.png''}) = scratchSet"
    by (simp_all add: worldApp1_def world0_def)
  show ?thesis
    using h
      removeScratchFiles_any_member [OF h, of "worldApp1 {''/scratch/app1.png''}" "''/scratch/app1''"
        "''/scratch/app1.desktop''"]
      removeScratchFiles_any_member [OF h, of "worldApp1 {''/scratch/app1.png''}" "''/scratch/app1''"
        "''/scratch/app1.sh''"]
      removeScratchFiles_any_member [OF h, of "worldApp1 {''/scratch/app1.png''}" "''/scratch/app1''"
        "''/scratch/app1.png''"]
    by (simp add: rf scratchSet_def)
qed

text \<open>
  C8. \<open>dockEntry\<close> on an entry whose \<open>IsDocked\<close> is already true returns
  \<open>(false, nil)\<close>, no error, and leaves the entry as it was, field for field; the
  only trace is the warning that the entry is docked.
\<close>

theorem dockEntry_already_docked:
  "IsDocked entry \<Longrightarrow>
   dockEntry d w entry =
     (Returned (False, None), entry, logWarning w (WarnDockEntryIsDocked (entry_Id entry)))"
  by (simp add: dockEntry_def)

theorem dockEntry_already_docked_witness:
  "IsDocked (dockedAt ''/scratch/app1.desktop'' None []) \<and>
   dockEntry deps0 world0 (dockedAt ''/scratch/app1.desktop'' None []) =
     (Returned (False, None), dockedAt ''/scratch/app1.desktop'' None [],
      world0\<lparr>warnings := [WarnDockEntryIsDocked ''e2'']\<rparr>)"
proof -
  have h: "IsDocked (dockedAt ''/scratch/app1.desktop'' None [])"
    by (simp add: dockedAt_def)
  show ?thesis
    using h dockEntry_already_docked [OF h, of deps0 world0]
    by (simp add: logWarning_def dockedAt_def world0_def)
qed

text \<open>
  C9. When every docked tracked entry has launcher metadata, \<open>saveDockedApps\<close>
  replaces \<open>DockedApps\<close> by the encoded launcher file paths of exactly the tracked
  entries whose \<open>IsDocked\<close> is true, in the order of the collection. With A docked
  at \<open>/scratch/a.desktop\<close> and B undocked at \<open>/scratch/b.desktop\<close> the list has
  the one encoded path of A.
\<close>

theorem saveDockedApps_docked_paths:
  assumes "\<forall>a \<in> set (Entries m). IsDocked (heap m a) \<longrightarrow> appInfo (heap m a) \<noteq> None"
  shows "saveDockedApps d m =
           (Returned (),
            m\<lparr>DockedApps :=
                 map (\<lambda>a. zipDesktopPath d (GetFileName (the (appInfo (heap m a)))))
                     (filter (\<lambda>a. IsDocked (heap m a)) (Entries m))\<rparr>)"
proof -
  have "\<forall>e \<in> set (FilterDocked m). appInfo e \<noteq> None"
    using assms by (auto simp: FilterDocked_def)
  then have "saveLoop d (FilterDocked m) [] =
      Returned (map (\<lambda>e. zipDesktopPath d (GetFileName (the (appInfo e)))) (FilterDocked m))"
    using saveLoop_all_some[of "FilterDocked m" d "[]"] by simp
  moreover have "map (\<lambda>e. zipDesktopPath d (GetFileName (the (appInfo e)))) (FilterDocked m) =
      map (\<lambda>a. zipDesktopPath d (GetFileName (the (appInfo (heap m a)))))
          (filter (\<lambda>a. IsDocked (heap m a)) (Entries m))"
    by (simp add: FilterDocked_def filter_map comp_def)
  ultimately show ?thesis by (simp add: saveDockedApps_def)
qed

theorem saveDockedApps_docked_paths_witness:
  "IsDocked (heap managerAB 0) \<and> \<not> IsDocked (heap managerAB 1) \<and>
   saveDockedApps deps0 managerAB =
     (Returned (), managerAB\<lparr>DockedApps := [zipDesktopPath deps0 ''/scratch/a.desktop'']\<rparr>)"
proof -
  have h: "\<forall>a \<in> set (Entries managerAB). IsDocked (heap managerAB a) \<longrightarrow> appInfo (heap managerAB a) \<noteq> None"
    by (simp add: managerAB_def dockedAt_def)
  show ?thesis
    using h saveDockedApps_docked_paths [OF h, of deps0]
    by (simp add: managerAB_def dockedAt_def infoAt_def)
qed




end
